theory Spec2Isabelle
  imports Complex_Main "HOL-Library.Multiset" "HOL-Library.Char_ord" "HOL-Library.List_Lexorder"
begin

section \<open>Product performance analysis\<close>

text \<open>
  The script \<^verbatim>\<open>Product_Analysis.py\<close> loads a table of products, cleans it, derives four
  metrics per row, ranks the products and rolls the rows up by category.  It is a sequence
  of calls of the data-frame library on one frame, so each definition below gives the
  meaning of one call of the script, under the name the script or the library uses: the
  value a call returns for the values it receives, as the library documents it.  A frame
  is the list of its rows and a row is a record of the columns of the input file.  The
  charts and the printed report (steps 4 and 5) read the frames and are not followed.
\<close>

section \<open>Numeric cells\<close>

text \<open>
  A numeric column of the frame holds float cells.  A cell is a number, one of the two
  infinities, or NaN, which is also how a missing entry of a numeric column is stored.
  Finite values are computed exactly, as rationals: rounding to 53 bits, overflow and the
  sign of zero are not part of this development.  The special values follow the rules of
  float arithmetic: NaN is contagious, \<open>\<infinity> - \<infinity>\<close>, \<open>0 \<times> \<infinity>\<close>, \<open>0 / 0\<close> and
  \<open>\<infinity> / \<infinity>\<close> are NaN, and a nonzero number divided by zero is an infinity.  Arithmetic on
  a column never raises.
\<close>

datatype fval = NaN | NInf | PInf | Fin rat

definition isnan :: "fval \<Rightarrow> bool" where
  "isnan x = (x = NaN)"

definition isinf :: "fval \<Rightarrow> bool" where
  "isinf x = (x = PInf \<or> x = NInf)"

definition signed_inf :: "rat \<Rightarrow> fval" where
  "signed_inf s = (if 0 < s then PInf else if s < 0 then NInf else NaN)"

fun fneg :: "fval \<Rightarrow> fval" where
  "fneg NaN = NaN"
| "fneg NInf = PInf"
| "fneg PInf = NInf"
| "fneg (Fin a) = Fin (- a)"

fun fadd :: "fval \<Rightarrow> fval \<Rightarrow> fval" where
  "fadd NaN y = NaN"
| "fadd x NaN = NaN"
| "fadd (Fin a) (Fin b) = Fin (a + b)"
| "fadd PInf NInf = NaN"
| "fadd NInf PInf = NaN"
| "fadd PInf y = PInf"
| "fadd x PInf = PInf"
| "fadd NInf y = NInf"
| "fadd x NInf = NInf"

definition fsub :: "fval \<Rightarrow> fval \<Rightarrow> fval" where
  "fsub x y = fadd x (fneg y)"

fun fmul :: "fval \<Rightarrow> fval \<Rightarrow> fval" where
  "fmul NaN y = NaN"
| "fmul x NaN = NaN"
| "fmul (Fin a) (Fin b) = Fin (a * b)"
| "fmul (Fin a) PInf = signed_inf a"
| "fmul (Fin a) NInf = signed_inf (- a)"
| "fmul PInf (Fin b) = signed_inf b"
| "fmul NInf (Fin b) = signed_inf (- b)"
| "fmul PInf PInf = PInf"
| "fmul NInf NInf = PInf"
| "fmul PInf NInf = NInf"
| "fmul NInf PInf = NInf"

fun fdiv :: "fval \<Rightarrow> fval \<Rightarrow> fval" where
  "fdiv NaN y = NaN"
| "fdiv x NaN = NaN"
| "fdiv (Fin a) (Fin b) = (if b = 0 then signed_inf a else Fin (a / b))"
| "fdiv (Fin a) PInf = Fin 0"
| "fdiv (Fin a) NInf = Fin 0"
| "fdiv PInf (Fin b) = (if b < 0 then NInf else PInf)"
| "fdiv NInf (Fin b) = (if b < 0 then PInf else NInf)"
| "fdiv x y = NaN"

text \<open>The comparison \<open>x \<le> y\<close> of two cells; it is false as soon as one of them is NaN.\<close>

fun fle :: "fval \<Rightarrow> fval \<Rightarrow> bool" where
  "fle NaN y = False"
| "fle x NaN = False"
| "fle NInf y = True"
| "fle x PInf = True"
| "fle (Fin a) (Fin b) = (a \<le> b)"
| "fle x y = False"


section \<open>The median of a column and the fill of its missing entries\<close>

text \<open>
  \<open>Series.median()\<close> skips the missing entries, orders the others and returns the middle
  one, or the mean of the two middle ones when their number is even.  Over no entries at
  all the result is NaN.
\<close>

fun finsort :: "fval \<Rightarrow> fval list \<Rightarrow> fval list" where
  "finsort x [] = [x]"
| "finsort x (y # ys) = (if fle x y then x # y # ys else y # finsort x ys)"

fun fsort :: "fval list \<Rightarrow> fval list" where
  "fsort [] = []"
| "fsort (x # xs) = finsort x (fsort xs)"

definition dropna :: "fval list \<Rightarrow> fval list" where
  "dropna xs = filter (\<lambda>x. \<not> isnan x) xs"

definition median :: "fval list \<Rightarrow> fval" where
  "median xs =
     (let ys = fsort (dropna xs); n = length ys in
      if n = 0 then NaN
      else if odd n then ys ! (n div 2)
      else fdiv (fadd (ys ! (n div 2 - 1)) (ys ! (n div 2))) (Fin 2))"

text \<open>\<open>fillna(v)\<close> on one cell: a missing entry takes the value, any other entry stays.\<close>

definition fillna :: "fval \<Rightarrow> fval \<Rightarrow> fval" where
  "fillna v x = (if isnan x then v else x)"

section \<open>The frame\<close>

text \<open>
  The Product ID of a row as the loader typed it: an integer when the whole column read
  as integers, text otherwise, or missing.
\<close>

datatype id_value = Id_Int int | Id_Text string | Id_Missing

text \<open>
  One row of the product table, with the nine columns of the input file.  A text column
  holds \<open>None\<close> where the entry is missing; a numeric column holds NaN there.  A frame is
  the list of its rows, in index order.
\<close>

record row =
  product_id :: id_value
  product_name :: "string option"
  category :: "string option"
  subcategory :: "string option"
  units_sold :: fval
  unit_price :: fval
  cost_per_unit :: fval
  customer_rating :: fval
  inventory :: fval

text \<open>The row after step 2.C, with the four derived columns.\<close>

record erow = row +
  total_revenue :: fval
  total_profit :: fval
  profit_margin :: fval
  inventory_turnover :: fval

subsection \<open>Step 2.A: missing values\<close>

text \<open>
  The loop \<^verbatim>\<open>for col in ['Units Sold', 'Customer Rating']\<close> takes the median of the
  column and fills the column with it in place.  The fill through the column selection
  \<^verbatim>\<open>df[col].fillna(median_val, inplace=True)\<close> is taken to reach the frame, as it does
  where the selection is a view of the frame's data.
\<close>

datatype fill_col = Units_Sold | Customer_Rating

fun get_col :: "fill_col \<Rightarrow> row \<Rightarrow> fval" where
  "get_col Units_Sold r = units_sold r"
| "get_col Customer_Rating r = customer_rating r"

fun set_col :: "fill_col \<Rightarrow> fval \<Rightarrow> row \<Rightarrow> row" where
  "set_col Units_Sold v r = r\<lparr>units_sold := v\<rparr>"
| "set_col Customer_Rating v r = r\<lparr>customer_rating := v\<rparr>"

definition fill_column :: "fill_col \<Rightarrow> row list \<Rightarrow> row list" where
  "fill_column col df =
     (let median_val = median (map (get_col col) df) in
      map (\<lambda>r. set_col col (fillna median_val (get_col col r)) r) df)"

definition fill_missing_numeric :: "row list \<Rightarrow> row list" where
  "fill_missing_numeric df = fold fill_column [Units_Sold, Customer_Rating] df"

text \<open>\<^verbatim>\<open>df['Category'].fillna('Unknown', inplace=True)\<close>\<close>

definition fill_category_cell :: "string option \<Rightarrow> string option" where
  "fill_category_cell c = (case c of None \<Rightarrow> Some ''Unknown'' | Some s \<Rightarrow> Some s)"

definition fill_missing_categorical :: "row list \<Rightarrow> row list" where
  "fill_missing_categorical df = map (\<lambda>r. r\<lparr>category := fill_category_cell (category r)\<rparr>) df"

subsection \<open>Step 2.B: the Product ID as text\<close>

text \<open>
  \<^verbatim>\<open>df['Product ID'].astype('string')\<close> turns each value into its text: text stays as it
  is, an integer becomes its decimal numeral, with a minus sign when negative and no
  leading zeros, and a missing entry stays missing.
\<close>

definition digit_char :: "nat \<Rightarrow> char" where
  "digit_char d = ''0123456789'' ! d"

fun str_nat :: "nat \<Rightarrow> string" where
  "str_nat n = (if n < 10 then [digit_char n] else str_nat (n div 10) @ [digit_char (n mod 10)])"

declare str_nat.simps [simp del]

definition str_int :: "int \<Rightarrow> string" where
  "str_int i = (if i < 0 then CHR ''-'' # str_nat (nat (- i)) else str_nat (nat i))"

fun astype_string :: "id_value \<Rightarrow> id_value" where
  "astype_string (Id_Int i) = Id_Text (str_int i)"
| "astype_string (Id_Text s) = Id_Text s"
| "astype_string Id_Missing = Id_Missing"

definition coerce_identifier :: "row list \<Rightarrow> row list" where
  "coerce_identifier df = map (\<lambda>r. r\<lparr>product_id := astype_string (product_id r)\<rparr>) df"

subsection \<open>Step 2.C: the business metrics\<close>

text \<open>
  The four assignments, in the order of the script; each column is computed row by row
  from columns that exist by then.
\<close>

definition derive_row :: "row \<Rightarrow> erow" where
  "derive_row r =
     (let revenue = fmul (units_sold r) (unit_price r);
          profit = fmul (units_sold r) (fsub (unit_price r) (cost_per_unit r));
          margin = fmul (fdiv profit revenue) (Fin 100);
          turnover = fdiv (units_sold r) (inventory r)
      in row.extend r (erow.fields revenue profit margin turnover))"

definition derive_metrics :: "row list \<Rightarrow> erow list" where
  "derive_metrics df = map derive_row df"

text \<open>Step 2 as a function of the raw frame.\<close>

definition clean :: "row list \<Rightarrow> row list" where
  "clean df = coerce_identifier (fill_missing_categorical (fill_missing_numeric df))"

definition enrich :: "row list \<Rightarrow> erow list" where
  "enrich df = derive_metrics (clean df)"


section \<open>Step 3: ranking and the category rollup\<close>

subsection \<open>\<open>sort_values\<close> and \<open>head\<close>\<close>

text \<open>
  \<^verbatim>\<open>df.sort_values(col, ascending=...)\<close> is called with its default algorithm,
  \<^verbatim>\<open>kind='quicksort'\<close>, which promises a frame with the same rows ordered by the
  column, the rows whose key is missing last (\<^verbatim>\<open>na_position='last'\<close>), and promises
  nothing about the order of rows with equal keys.  It is therefore a relation between a
  frame and its possible results.  A row travels with its index label, so a frame that is
  sorted is a list of labelled rows; \<open>enumerate 0 df\<close> labels the rows of \<open>df\<close> with the
  positions \<open>0, 1, \<dots>\<close>, as the loader does.
\<close>

definition key_before :: "bool \<Rightarrow> fval \<Rightarrow> fval \<Rightarrow> bool" where
  "key_before ascending a b = (isnan b \<or> (if ascending then fle a b else fle b a))"

definition sort_values :: "('r \<Rightarrow> fval) \<Rightarrow> bool \<Rightarrow> ('l \<times> 'r) list \<Rightarrow> ('l \<times> 'r) list \<Rightarrow> bool" where
  "sort_values key ascending df out =
     (mset out = mset df \<and>
      sorted_wrt (\<lambda>x y. key_before ascending (key (snd x)) (key (snd y))) out)"

definition head :: "nat \<Rightarrow> 'a list \<Rightarrow> 'a list" where
  "head n df = take n df"

text \<open>
  \<^verbatim>\<open>top_revenue = df.sort_values('Total Revenue', ascending=False).head(10)\<close> and
  \<^verbatim>\<open>bottom_profit = df.sort_values('Total Profit', ascending=True).head(10)\<close>:
  \<open>out\<close> is a possible value of the variable for the frame \<open>df\<close>, with \<open>s\<close> the sorted frame.
\<close>

definition top_revenue :: "erow list \<Rightarrow> (nat \<times> erow) list \<Rightarrow> (nat \<times> erow) list \<Rightarrow> bool" where
  "top_revenue df s out = (sort_values total_revenue False (enumerate 0 df) s \<and> out = head 10 s)"

definition bottom_profit :: "erow list \<Rightarrow> (nat \<times> erow) list \<Rightarrow> (nat \<times> erow) list \<Rightarrow> bool" where
  "bottom_profit df s out = (sort_values total_profit True (enumerate 0 df) s \<and> out = head 10 s)"

subsection \<open>\<open>groupby('Category').agg(...)\<close>\<close>

text \<open>
  The groups are the distinct values of the column, in sorted order; a row whose key is
  missing belongs to no group.  \<open>sum\<close> and \<open>mean\<close> skip the missing entries of a group:
  the sum of none is 0 and the mean of none is NaN.
\<close>

record rollup =
  Total_Revenue :: fval
  Total_Profit :: fval
  Avg_Rating :: fval

definition group_keys :: "erow list \<Rightarrow> string list" where
  "group_keys df = sort (remdups (List.map_filter category df))"

definition group_rows :: "string \<Rightarrow> erow list \<Rightarrow> erow list" where
  "group_rows k df = filter (\<lambda>r. category r = Some k) df"

definition agg_sum :: "fval list \<Rightarrow> fval" where
  "agg_sum xs = foldl fadd (Fin 0) (dropna xs)"

definition agg_mean :: "fval list \<Rightarrow> fval" where
  "agg_mean xs =
     (let ys = dropna xs in
      if ys = [] then NaN else fdiv (foldl fadd (Fin 0) ys) (Fin (of_nat (length ys))))"

definition agg_group :: "erow list \<Rightarrow> rollup" where
  "agg_group g =
     \<lparr>Total_Revenue = agg_sum (map total_revenue g),
      Total_Profit = agg_sum (map total_profit g),
      Avg_Rating = agg_mean (map customer_rating g)\<rparr>"

definition groupby_agg :: "erow list \<Rightarrow> (string \<times> rollup) list" where
  "groupby_agg df = map (\<lambda>k. (k, agg_group (group_rows k df))) (group_keys df)"

subsection \<open>\<open>round(2)\<close>\<close>

text \<open>
  Rounding to two decimals scales by 100, rounds to the nearest integer with ties to the
  even one, and scales back; NaN and the infinities stay.
\<close>

definition rint :: "rat \<Rightarrow> int" where
  "rint q =
     (let f = \<lfloor>q\<rfloor>; d = q - of_int f in
      if d < 1 / 2 then f else if 1 / 2 < d then f + 1 else if even f then f else f + 1)"

fun round2 :: "fval \<Rightarrow> fval" where
  "round2 (Fin q) = Fin (of_int (rint (q * 100)) / 100)"
| "round2 x = x"

definition round_rollup :: "rollup \<Rightarrow> rollup" where
  "round_rollup r =
     \<lparr>Total_Revenue = round2 (Total_Revenue r),
      Total_Profit = round2 (Total_Profit r),
      Avg_Rating = round2 (Avg_Rating r)\<rparr>"

definition round_frame :: "(string \<times> rollup) list \<Rightarrow> (string \<times> rollup) list" where
  "round_frame df = map (\<lambda>(k, r). (k, round_rollup r)) df"

text \<open>
  \<^verbatim>\<open>category_performance = df.groupby('Category').agg(...).sort_values('Total_Revenue',
  ascending=False).round(2)\<close>: \<open>out\<close> is a possible value of the variable for the frame
  \<open>df\<close>, with \<open>s\<close> the sorted rollup before rounding.
\<close>

definition category_performance ::
  "erow list \<Rightarrow> (string \<times> rollup) list \<Rightarrow> (string \<times> rollup) list \<Rightarrow> bool" where
  "category_performance df s out =
     (sort_values Total_Revenue False (groupby_agg df) s \<and> out = round_frame s)"

section \<open>Step 1: how the loader types the Product ID column\<close>

text \<open>
  \<^verbatim>\<open>pd.read_csv('data/product-sales.csv')\<close> is called without a \<open>dtype\<close>, so the loader
  infers the type of each column from the text of its cells.  Only the Product ID column
  is followed from its text, and only as far as these two rules of the inference go:
  \<^item> when every cell reads as an integer (optional blanks, an optional sign, digits,
    optional blanks) inside the 64-bit range, the column is an integer column and each
    cell is the integer it denotes;
  \<^item> when some cell is certainly text (it is not a missing-value marker, not a boolean
    word, and holds a letter that no number contains), the column is a text column:
    each cell is kept as it is written, and a missing-value marker becomes a missing
    entry.
  For any other column (floats, booleans, mixtures of them) the function returns \<open>None\<close>:
  such identifier columns are outside this development.
\<close>

fun index_of :: "char \<Rightarrow> string \<Rightarrow> nat option" where
  "index_of c [] = None"
| "index_of c (x # xs) = (if c = x then Some 0 else map_option Suc (index_of c xs))"

definition digit_val :: "char \<Rightarrow> nat option" where
  "digit_val c = index_of c ''0123456789''"

definition is_space :: "char \<Rightarrow> bool" where
  "is_space c =
     (c = CHR '' '' \<or> c = CHR 0x09 \<or> c = CHR 0x0A \<or> c = CHR 0x0B \<or> c = CHR 0x0C \<or> c = CHR 0x0D)"

text \<open>The digits of a numeral, most significant first, read onto an accumulator.\<close>

fun parse_digits :: "nat \<Rightarrow> string \<Rightarrow> nat option" where
  "parse_digits acc [] = Some acc"
| "parse_digits acc (c # cs) =
     (case digit_val c of None \<Rightarrow> None | Some d \<Rightarrow> parse_digits (10 * acc + d) cs)"

text \<open>
  The integer a cell denotes, if it is an integer literal: blanks are skipped on both
  sides, a sign \<open>-\<close> or \<open>+\<close> may come first, at least one digit follows, and nothing
  else may be left.
\<close>

definition parse_unsigned :: "string \<Rightarrow> nat option" where
  "parse_unsigned s = (if s = [] then None else parse_digits 0 s)"

definition parse_int :: "string \<Rightarrow> int option" where
  "parse_int s =
     (let p = rev (dropWhile is_space (rev (dropWhile is_space s))) in
      case p of
        [] \<Rightarrow> None
      | c # cs \<Rightarrow>
          if c = CHR ''-'' then map_option (\<lambda>n. - int n) (parse_unsigned cs)
          else if c = CHR ''+'' then map_option int (parse_unsigned cs)
          else map_option int (parse_unsigned p))"

definition int64_cell :: "string \<Rightarrow> int option" where
  "int64_cell s =
     (case parse_int s of
        None \<Rightarrow> None
      | Some i \<Rightarrow> if - (2 ^ 63) < i \<and> i < 2 ^ 63 then Some i else None)"

text \<open>The cell texts that the loader reads as a missing value.\<close>

definition na_values :: "string list" where
  "na_values =
     [[], ''#N/A'', ''#N/A N/A'', ''#NA'', ''-1.#IND'', ''-1.#QNAN'', ''-NaN'', ''-nan'',
      ''1.#IND'', ''1.#QNAN'', ''<NA>'', ''N/A'', ''NA'', ''NULL'', ''NaN'', ''None'',
      ''n/a'', ''nan'', ''null'']"

definition is_na_text :: "string \<Rightarrow> bool" where
  "is_na_text s = (s \<in> set na_values)"

definition bool_words :: "string list" where
  "bool_words = [''True'', ''TRUE'', ''true'', ''False'', ''FALSE'', ''false'']"

definition is_letter :: "char \<Rightarrow> bool" where
  "is_letter c = (c \<in> set ''abcdefghijklmnopqrstuvwxyzABCDEFGHIJKLMNOPQRSTUVWXYZ'')"

text \<open>
  A float literal holds no letter but the exponent mark and the letters of \<open>inf\<close> and
  \<open>infinity\<close>, in either case.
\<close>

definition certainly_text :: "string \<Rightarrow> bool" where
  "certainly_text s =
     (\<not> is_na_text s \<and> s \<notin> set bool_words \<and>
      list_ex (\<lambda>c. is_letter c \<and> c \<notin> set ''eEiInNfFtTyY'') s)"

definition text_cell :: "string \<Rightarrow> id_value" where
  "text_cell s = (if is_na_text s then Id_Missing else Id_Text s)"

definition infer_id_column :: "string list \<Rightarrow> id_value list option" where
  "infer_id_column cells =
     (if list_all (\<lambda>s. int64_cell s \<noteq> None) cells
      then Some (map (\<lambda>s. Id_Int (the (int64_cell s))) cells)
      else if list_ex certainly_text cells then Some (map text_cell cells)
      else None)"

section \<open>Step 2 on the objects the variables refer to\<close>

text \<open>
  The script binds \<open>df_raw\<close> to the loaded frame, binds \<open>df\<close> to a copy of it and changes
  the object \<open>df\<close> refers to in place.  The heap is the list of frame objects; an address
  is a position in it.  A frame object holds plain rows until the metric columns are
  added to it.
\<close>

datatype frame = Frame "row list" | Metric_Frame "erow list"

text \<open>\<^verbatim>\<open>df_raw.copy()\<close>: a new object with the content of the old one.\<close>

definition copy_frame :: "nat \<Rightarrow> frame list \<Rightarrow> nat \<times> frame list" where
  "copy_frame a h = (length h, h @ [h ! a])"

text \<open>An in-place change of the columns of the object at an address.\<close>

definition update_frame :: "(row list \<Rightarrow> row list) \<Rightarrow> nat \<Rightarrow> frame list \<Rightarrow> frame list option" where
  "update_frame f a h =
     (if a < length h then
        (case h ! a of Frame rows \<Rightarrow> Some (h[a := Frame (f rows)]) | Metric_Frame rows \<Rightarrow> None)
      else None)"

text \<open>The four column assignments of step 2.C on the object at an address.\<close>

definition assign_metrics :: "nat \<Rightarrow> frame list \<Rightarrow> frame list option" where
  "assign_metrics a h =
     (if a < length h then
        (case h ! a of Frame rows \<Rightarrow> Some (h[a := Metric_Frame (derive_metrics rows)])
         | Metric_Frame rows \<Rightarrow> None)
      else None)"

text \<open>
  Step 2 from the address of \<open>df_raw\<close>: the result is the address bound to \<open>df\<close> and the
  heap after the step, or \<open>None\<close> when \<open>df_raw\<close> does not refer to a loaded frame.
\<close>

definition step2 :: "nat \<Rightarrow> frame list \<Rightarrow> (nat \<times> frame list) option" where
  "step2 df_raw h =
     (if df_raw < length h then
        (case copy_frame df_raw h of (df, h1) \<Rightarrow>
           (case update_frame fill_missing_numeric df h1 of None \<Rightarrow> None | Some h2 \<Rightarrow>
           (case update_frame fill_missing_categorical df h2 of None \<Rightarrow> None | Some h3 \<Rightarrow>
           (case update_frame coerce_identifier df h3 of None \<Rightarrow> None | Some h4 \<Rightarrow>
           (case assign_metrics df h4 of None \<Rightarrow> None | Some h5 \<Rightarrow> Some (df, h5))))))
      else None)"

section \<open>Sample frames\<close>

text \<open>Small frames on which the theorems below are applied.\<close>

definition product :: "string \<Rightarrow> string option \<Rightarrow> fval \<Rightarrow> fval \<Rightarrow> fval \<Rightarrow> fval \<Rightarrow> fval \<Rightarrow> row" where
  "product name cat units price cost rating stock =
     \<lparr>product_id = Id_Text name, product_name = Some name, category = cat, subcategory = None,
      units_sold = units, unit_price = price, cost_per_unit = cost,
      customer_rating = rating, inventory = stock\<rparr>"

definition sample_frame :: "row list" where
  "sample_frame =
     [product ''A'' (Some ''Toys'') (Fin 10) (Fin 5) (Fin 2) (Fin 4) (Fin 5),
      product ''B'' None (Fin 0) (Fin 5) (Fin 2) (Fin 4) (Fin 0),
      product ''C'' (Some ''Toys'') NaN (Fin 1) (Fin 2) (Fin 5) (Fin 0),
      product ''D'' (Some ''Apparel'') (Fin 3) (Fin 7) (Fin 2) NaN (Fin 4)]"

text \<open>A product given away: ten units sold at price 0, each costing 2.\<close>

definition free_item :: row where
  "free_item = product ''F'' (Some ''Toys'') (Fin 10) (Fin 0) (Fin 2) (Fin 4) (Fin 5)"

text \<open>A product that sold ten units and has no stock left.\<close>

definition sold_out :: row where
  "sold_out = product ''S'' (Some ''Toys'') (Fin 10) (Fin 5) (Fin 2) (Fin 4) (Fin 0)"

text \<open>A frame whose Units Sold column is missing in every row.\<close>

definition unsold_frame :: "row list" where
  "unsold_frame =
     [product ''A'' (Some ''Toys'') NaN (Fin 5) (Fin 2) (Fin 4) (Fin 5),
      product ''B'' None NaN (Fin 5) (Fin 2) NaN (Fin 0)]"

text \<open>
  A frame whose Product ID column the loader typed as integers: the file wrote the two
  identifiers as \<open>007\<close> and \<open>12\<close>.
\<close>

definition numbered_cells :: "string list" where
  "numbered_cells = [''007'', ''12'']"

definition numbered_frame :: "row list" where
  "numbered_frame =
     [(product ''Widget'' (Some ''Toys'') (Fin 1) (Fin 5) (Fin 2) (Fin 4) (Fin 5))\<lparr>product_id := Id_Int 7\<rparr>,
      (product ''Gadget'' (Some ''Toys'') (Fin 2) (Fin 5) (Fin 2) (Fin 4) (Fin 5))\<lparr>product_id := Id_Int 12\<rparr>]"

text \<open>The Product ID column of \<open>sample_frame\<close> as the file wrote it.\<close>

definition lettered_cells :: "string list" where
  "lettered_cells = [''A'', ''B'', ''C'', ''D'']"

text \<open>Two products with the same revenue, and their rows in the reverse of the input order.\<close>

definition tied_frame :: "row list" where
  "tied_frame =
     [product ''A'' (Some ''Toys'') (Fin 1) (Fin 5) (Fin 2) (Fin 4) (Fin 5),
      product ''B'' (Some ''Toys'') (Fin 1) (Fin 5) (Fin 2) (Fin 4) (Fin 5)]"

definition tied_reversed :: "(nat \<times> erow) list" where
  "tied_reversed = rev (enumerate 0 (enrich tied_frame))"

text \<open>
  Twelve products selling 1, 2, \<dots>, 12 units at price 1, and their rows by decreasing
  revenue.
\<close>

definition ladder_frame :: "row list" where
  "ladder_frame =
     map (\<lambda>q. product ''P'' (Some ''Toys'') (Fin q) (Fin 1) (Fin 0) (Fin 4) (Fin 1))
       [1, 2, 3, 4, 5, 6, 7, 8, 9, 10, 11, 12]"

definition ladder_sorted :: "(nat \<times> erow) list" where
  "ladder_sorted = rev (enumerate 0 (enrich ladder_frame))"

text \<open>Three products of one category, rated 4, 4 and 5, and their rollup.\<close>

definition rated_frame :: "row list" where
  "rated_frame =
     [product ''A'' (Some ''Toys'') (Fin 1) (Fin 5) (Fin 2) (Fin 4) (Fin 5),
      product ''B'' (Some ''Toys'') (Fin 1) (Fin 5) (Fin 2) (Fin 4) (Fin 5),
      product ''C'' (Some ''Toys'') (Fin 1) (Fin 5) (Fin 2) (Fin 5) (Fin 5)]"

definition rated_rollup :: "(string \<times> rollup) list" where
  "rated_rollup = round_frame (groupby_agg (enrich rated_frame))"

text \<open>The rollup of \<open>sample_frame\<close> by decreasing revenue, before rounding.\<close>

definition sample_rollup :: "(string \<times> rollup) list" where
  "sample_rollup =
     [(''Toys'', \<lparr>Total_Revenue = Fin 53, Total_Profit = Fin 27, Avg_Rating = Fin (9 / 2)\<rparr>),
      (''Apparel'', \<lparr>Total_Revenue = Fin 21, Total_Profit = Fin 15, Avg_Rating = Fin 4\<rparr>),
      (''Unknown'', \<lparr>Total_Revenue = Fin 0, Total_Profit = Fin 0, Avg_Rating = Fin 4\<rparr>)]"

lemmas eval_defs =
  product_def enrich_def clean_def derive_metrics_def derive_row_def fill_missing_numeric_def
  fill_column_def coerce_identifier_def fill_missing_categorical_def fill_category_cell_def
  median_def dropna_def isnan_def isinf_def fillna_def Let_def row.extend_def erow.fields_def
  fsub_def signed_inf_def

section \<open>Facts about the cleaning and the metrics\<close>

lemma length_fill_column [simp]: "length (fill_column col df) = length df"
  by (simp add: fill_column_def Let_def)

lemma length_fill_missing_numeric [simp]: "length (fill_missing_numeric df) = length df"
  by (simp add: fill_missing_numeric_def)

lemma length_clean [simp]: "length (clean df) = length df"
  by (simp add: clean_def coerce_identifier_def fill_missing_categorical_def)

lemma length_enrich [simp]: "length (enrich df) = length df"
  by (simp add: enrich_def derive_metrics_def)

lemma enrich_nth: "i < length df \<Longrightarrow> enrich df ! i = derive_row (clean df ! i)"
  by (simp add: enrich_def derive_metrics_def)

lemma clean_nth:
  "i < length df \<Longrightarrow>
   clean df ! i =
     (fill_missing_numeric df ! i)
       \<lparr>category := fill_category_cell (category (fill_missing_numeric df ! i)),
        product_id := astype_string (product_id (fill_missing_numeric df ! i))\<rparr>"
  by (simp add: clean_def coerce_identifier_def fill_missing_categorical_def)

lemma derive_row_fields [simp]:
  "total_revenue (derive_row r) = fmul (units_sold r) (unit_price r)"
  "total_profit (derive_row r) = fmul (units_sold r) (fsub (unit_price r) (cost_per_unit r))"
  "profit_margin (derive_row r) =
     fmul (fdiv (total_profit (derive_row r)) (total_revenue (derive_row r))) (Fin 100)"
  "inventory_turnover (derive_row r) = fdiv (units_sold r) (inventory r)"
  by (simp_all add: derive_row_def Let_def row.extend_def erow.fields_def)

lemma derive_row_base [simp]:
  "product_id (derive_row r) = product_id r"
  "product_name (derive_row r) = product_name r"
  "category (derive_row r) = category r"
  "subcategory (derive_row r) = subcategory r"
  "units_sold (derive_row r) = units_sold r"
  "unit_price (derive_row r) = unit_price r"
  "cost_per_unit (derive_row r) = cost_per_unit r"
  "customer_rating (derive_row r) = customer_rating r"
  "inventory (derive_row r) = inventory r"
  by (simp_all add: derive_row_def Let_def row.extend_def erow.fields_def)

lemma enriched_row_is_derived: "r \<in> set (enrich df) \<Longrightarrow> \<exists>c. r = derive_row c"
  by (auto simp: enrich_def derive_metrics_def)

lemma fmul_100_nan: "isnan (fmul x (Fin 100)) \<longleftrightarrow> isnan x"
  by (cases x) (simp_all add: isnan_def signed_inf_def)

lemma fdiv_nan_iff:
  "isnan (fdiv p r) \<longleftrightarrow>
   isnan p \<or> isnan r \<or> (p = Fin 0 \<and> r = Fin 0) \<or> (isinf p \<and> isinf r)"
  by (cases p; cases r) (auto simp: isnan_def isinf_def signed_inf_def)

lemma fmul_fsub_distrib:
  "\<not> isinf u \<Longrightarrow> fmul u (fsub p c) = fsub (fmul u p) (fmul u c)"
  by (cases u; cases p; cases c) (auto simp: isinf_def fsub_def signed_inf_def algebra_simps)

section \<open>The derived metrics\<close>

subsection \<open>Profit Margin (%)\<close>

text \<open>
  C1, as the spec states it: the Profit Margin (%) of a row is NaN if and only if its
  Total Revenue is 0.  The frame with the single row \<open>free_item\<close> shows that this is not
  what the division does: the revenue is 0, the profit is \<open>-20\<close>, and the margin is
  \<open>-20 / 0 \<times> 100\<close>, an infinity and not NaN.
\<close>

theorem profit_margin_nan_iff_zero_revenue_counterexample:
  "enrich [free_item] ! 0 \<in> set (enrich [free_item]) \<and>
   total_revenue (enrich [free_item] ! 0) = Fin 0 \<and>
   profit_margin (enrich [free_item] ! 0) = NInf \<and>
   \<not> isnan (profit_margin (enrich [free_item] ! 0))"
  by (simp add: free_item_def eval_defs)

text \<open>
  C1, amended: for every row of the enriched table, Profit Margin (%) is
  \<open>(Total Profit / Total Revenue) \<times> 100\<close> in float arithmetic.  It is NaN exactly when
  Total Revenue or Total Profit is NaN, or both are 0, or both are infinite.  When Total
  Revenue is 0 and Total Profit is a nonzero number it is an infinity.  When Total Revenue
  is a nonzero number and Total Profit a number it is \<open>100 \<times> Total Profit / Total Revenue\<close>.
\<close>

theorem profit_margin_of_enriched_row:
  assumes "r \<in> set (enrich df)"
  shows "profit_margin r = fmul (fdiv (total_profit r) (total_revenue r)) (Fin 100) \<and>
         (isnan (profit_margin r) \<longleftrightarrow>
            isnan (total_revenue r) \<or> isnan (total_profit r) \<or>
            (total_revenue r = Fin 0 \<and> total_profit r = Fin 0) \<or>
            (isinf (total_revenue r) \<and> isinf (total_profit r))) \<and>
         (\<forall>p. total_revenue r = Fin 0 \<and> total_profit r = Fin p \<and> p \<noteq> 0 \<longrightarrow>
            isinf (profit_margin r)) \<and>
         (\<forall>t p. total_revenue r = Fin t \<and> t \<noteq> 0 \<and> total_profit r = Fin p \<longrightarrow>
            profit_margin r = Fin (100 * p / t))"
proof -
  from assms obtain c where r: "r = derive_row c"
    using enriched_row_is_derived by blast
  have eq: "profit_margin r = fmul (fdiv (total_profit r) (total_revenue r)) (Fin 100)"
    by (simp add: r)
  have nan: "isnan (profit_margin r) \<longleftrightarrow>
            isnan (total_revenue r) \<or> isnan (total_profit r) \<or>
            (total_revenue r = Fin 0 \<and> total_profit r = Fin 0) \<or>
            (isinf (total_revenue r) \<and> isinf (total_profit r))"
    unfolding eq fmul_100_nan fdiv_nan_iff by blast
  have inf: "\<forall>p. total_revenue r = Fin 0 \<and> total_profit r = Fin p \<and> p \<noteq> 0 \<longrightarrow>
            isinf (profit_margin r)"
    unfolding eq by (auto simp: isinf_def signed_inf_def)
  have fin: "\<forall>t p. total_revenue r = Fin t \<and> t \<noteq> 0 \<and> total_profit r = Fin p \<longrightarrow>
            profit_margin r = Fin (100 * p / t)"
    unfolding eq by (auto simp: field_simps)
  from eq nan inf fin show ?thesis by blast
qed

theorem profit_margin_of_enriched_row_witness:
  "enrich [free_item] ! 0 \<in> set (enrich [free_item]) \<and>
   total_revenue (enrich [free_item] ! 0) = Fin 0 \<and>
   total_profit (enrich [free_item] ! 0) = Fin (- 20) \<and>
   isinf (profit_margin (enrich [free_item] ! 0)) \<and>
   \<not> isnan (profit_margin (enrich [free_item] ! 0)) \<and>
   enrich sample_frame ! 0 \<in> set (enrich sample_frame) \<and>
   total_revenue (enrich sample_frame ! 0) = Fin 50 \<and>
   total_profit (enrich sample_frame ! 0) = Fin 30 \<and>
   profit_margin (enrich sample_frame ! 0) = Fin (100 * 30 / 50)"
proof -
  have m1: "enrich [free_item] ! 0 \<in> set (enrich [free_item])"
    by (simp add: enrich_def derive_metrics_def clean_def coerce_identifier_def
        fill_missing_categorical_def)
  have v1: "total_revenue (enrich [free_item] ! 0) = Fin 0"
    "total_profit (enrich [free_item] ! 0) = Fin (- 20)"
    by (simp_all add: free_item_def eval_defs)
  have m2: "enrich sample_frame ! 0 \<in> set (enrich sample_frame)"
    by (rule nth_mem) (simp add: sample_frame_def)
  have v2: "total_revenue (enrich sample_frame ! 0) = Fin 50"
    "total_profit (enrich sample_frame ! 0) = Fin 30"
    by (simp_all add: sample_frame_def eval_defs)
  from profit_margin_of_enriched_row [OF m1]
  have "\<forall>p. total_revenue (enrich [free_item] ! 0) = Fin 0 \<and>
            total_profit (enrich [free_item] ! 0) = Fin p \<and> p \<noteq> 0 \<longrightarrow>
            isinf (profit_margin (enrich [free_item] ! 0))"
    by blast
  with v1 have i1: "isinf (profit_margin (enrich [free_item] ! 0))"
    by simp
  then have n1: "\<not> isnan (profit_margin (enrich [free_item] ! 0))"
    by (auto simp: isinf_def isnan_def)
  from profit_margin_of_enriched_row [OF m2]
  have "\<forall>t p. total_revenue (enrich sample_frame ! 0) = Fin t \<and> t \<noteq> 0 \<and>
            total_profit (enrich sample_frame ! 0) = Fin p \<longrightarrow>
            profit_margin (enrich sample_frame ! 0) = Fin (100 * p / t)"
    by blast
  with v2 have f2: "profit_margin (enrich sample_frame ! 0) = Fin (100 * 30 / 50)"
    by simp
  note i1 n1 f2
  then have "isinf (profit_margin (enrich [free_item] ! 0))"
    "\<not> isnan (profit_margin (enrich [free_item] ! 0))"
    "profit_margin (enrich sample_frame ! 0) = Fin (100 * 30 / 50)"
    by blast+
  then show ?thesis using m1 m2 v1 v2 by blast
qed

lemma get_set_col [simp]: "get_col col (set_col col v r) = v"
  by (cases col) simp_all

lemma set_col_same [simp]: "set_col col (get_col col r) r = r"
  by (cases col) simp_all

lemma set_col_frame [simp]:
  "product_id (set_col col v r) = product_id r"
  "product_name (set_col col v r) = product_name r"
  "category (set_col col v r) = category r"
  "subcategory (set_col col v r) = subcategory r"
  "unit_price (set_col col v r) = unit_price r"
  "cost_per_unit (set_col col v r) = cost_per_unit r"
  "inventory (set_col col v r) = inventory r"
  by (cases col; simp)+

lemma fill_column_frame:
  assumes "i < length df"
  shows "product_id (fill_column col df ! i) = product_id (df ! i)"
    and "product_name (fill_column col df ! i) = product_name (df ! i)"
    and "category (fill_column col df ! i) = category (df ! i)"
    and "subcategory (fill_column col df ! i) = subcategory (df ! i)"
    and "unit_price (fill_column col df ! i) = unit_price (df ! i)"
    and "cost_per_unit (fill_column col df ! i) = cost_per_unit (df ! i)"
    and "inventory (fill_column col df ! i) = inventory (df ! i)"
  using assms by (simp_all add: fill_column_def Let_def)

lemma fill_missing_numeric_frame:
  assumes "i < length df"
  shows "product_id (fill_missing_numeric df ! i) = product_id (df ! i)"
    and "product_name (fill_missing_numeric df ! i) = product_name (df ! i)"
    and "category (fill_missing_numeric df ! i) = category (df ! i)"
    and "subcategory (fill_missing_numeric df ! i) = subcategory (df ! i)"
    and "unit_price (fill_missing_numeric df ! i) = unit_price (df ! i)"
    and "cost_per_unit (fill_missing_numeric df ! i) = cost_per_unit (df ! i)"
    and "inventory (fill_missing_numeric df ! i) = inventory (df ! i)"
  using assms by (simp_all add: fill_missing_numeric_def fill_column_frame)

lemma clean_numeric:
  assumes "i < length df"
  shows "units_sold (clean df ! i) = units_sold (fill_missing_numeric df ! i)"
    and "customer_rating (clean df ! i) = customer_rating (fill_missing_numeric df ! i)"
    and "unit_price (clean df ! i) = unit_price (df ! i)"
    and "cost_per_unit (clean df ! i) = cost_per_unit (df ! i)"
    and "inventory (clean df ! i) = inventory (df ! i)"
  using assms by (simp_all add: clean_nth fill_missing_numeric_frame)

lemma fdiv_zero_nan: "isnan (fdiv u (Fin 0)) \<longleftrightarrow> isnan u \<or> u = Fin 0"
  by (cases u) (auto simp: isnan_def signed_inf_def)

lemma fdiv_zero_inf: "\<not> isnan u \<Longrightarrow> u \<noteq> Fin 0 \<Longrightarrow> isinf (fdiv u (Fin 0))"
  by (cases u) (auto simp: isnan_def isinf_def signed_inf_def)

subsection \<open>Total Revenue\<close>



subsection \<open>Total Profit\<close>



subsection \<open>Inventory Turnover\<close>

text \<open>
  C4, as the spec states it: whenever Inventory is 0 the Inventory Turnover is NaN.  The
  row \<open>sold_out\<close> sold ten units and has stock 0: its turnover is \<open>10 / 0\<close>, an infinity
  and not NaN.
\<close>

theorem inventory_turnover_zero_stock_counterexample:
  "enrich [sold_out] ! 0 \<in> set (enrich [sold_out]) \<and>
   inventory (enrich [sold_out] ! 0) = Fin 0 \<and>
   inventory_turnover (enrich [sold_out] ! 0) = PInf \<and>
   \<not> isnan (inventory_turnover (enrich [sold_out] ! 0))"
  by (simp add: sold_out_def eval_defs)

text \<open>
  C4, amended: for every row of the enriched table, Inventory Turnover is
  \<open>Units Sold / Inventory\<close> in float arithmetic, and no error is raised.  When
  Inventory is 0 the result is NaN exactly when Units Sold is 0 or missing, and it is an
  infinity when Units Sold is anything else.
\<close>

theorem inventory_turnover_of_enriched_row:
  assumes "r \<in> set (enrich df)"
  shows "inventory_turnover r = fdiv (units_sold r) (inventory r) \<and>
         (inventory r = Fin 0 \<longrightarrow>
            (isnan (inventory_turnover r) \<longleftrightarrow> isnan (units_sold r) \<or> units_sold r = Fin 0) \<and>
            (\<not> isnan (units_sold r) \<and> units_sold r \<noteq> Fin 0 \<longrightarrow> isinf (inventory_turnover r)))"
proof -
  from assms obtain c where r: "r = derive_row c"
    using enriched_row_is_derived by blast
  have eq: "inventory_turnover r = fdiv (units_sold r) (inventory r)"
    by (simp add: r)
  show ?thesis
    unfolding eq using fdiv_zero_nan fdiv_zero_inf by simp
qed

theorem inventory_turnover_of_enriched_row_witness:
  "enrich sample_frame ! 1 \<in> set (enrich sample_frame) \<and>
   inventory (enrich sample_frame ! 1) = Fin 0 \<and>
   units_sold (enrich sample_frame ! 1) = Fin 0 \<and>
   isnan (inventory_turnover (enrich sample_frame ! 1)) \<and>
   enrich sample_frame ! 2 \<in> set (enrich sample_frame) \<and>
   inventory (enrich sample_frame ! 2) = Fin 0 \<and>
   units_sold (enrich sample_frame ! 2) = Fin 3 \<and>
   isinf (inventory_turnover (enrich sample_frame ! 2))"
proof -
  have m1: "enrich sample_frame ! 1 \<in> set (enrich sample_frame)"
    by (rule nth_mem) (simp add: sample_frame_def)
  have m2: "enrich sample_frame ! 2 \<in> set (enrich sample_frame)"
    by (rule nth_mem) (simp add: sample_frame_def)
  have v1: "inventory (enrich sample_frame ! 1) = Fin 0" "units_sold (enrich sample_frame ! 1) = Fin 0"
    by (simp_all add: sample_frame_def eval_defs)
  have v2: "inventory (enrich sample_frame ! 2) = Fin 0" "units_sold (enrich sample_frame ! 2) = Fin 3"
    by (simp_all add: sample_frame_def eval_defs)
  from inventory_turnover_of_enriched_row [OF m1] v1
  have n: "isnan (inventory_turnover (enrich sample_frame ! 1))"
    by blast
  from inventory_turnover_of_enriched_row [OF m2]
  have "inventory (enrich sample_frame ! 2) = Fin 0 \<longrightarrow>
          \<not> isnan (units_sold (enrich sample_frame ! 2)) \<and>
          units_sold (enrich sample_frame ! 2) \<noteq> Fin 0 \<longrightarrow>
          isinf (inventory_turnover (enrich sample_frame ! 2))"
    by blast
  with v2 have i: "isinf (inventory_turnover (enrich sample_frame ! 2))"
    by (simp add: isnan_def)
  from m1 m2 v1 v2 n i show ?thesis by blast
qed

section \<open>The median fill\<close>

lemma set_finsort [simp]: "set (finsort x ys) = insert x (set ys)"
  by (induction ys) auto

lemma set_fsort [simp]: "set (fsort xs) = set xs"
  by (induction xs) auto

lemma length_finsort [simp]: "length (finsort x ys) = Suc (length ys)"
  by (induction ys) auto

lemma length_fsort [simp]: "length (fsort xs) = length xs"
  by (induction xs) auto

lemma fsort_eq_Nil [simp]: "fsort xs = [] \<longleftrightarrow> xs = []"
  by (metis length_fsort length_0_conv)

lemma dropna_idem [simp]: "dropna (dropna xs) = dropna xs"
  by (simp add: dropna_def)

lemma median_dropna: "median (dropna xs) = median xs"
  by (simp add: median_def)

lemma median_all_nan: "\<forall>x\<in>set xs. isnan x \<Longrightarrow> median xs = NaN"
  by (simp add: median_def dropna_def)

lemma not_nan_not_inf: "\<not> isnan y \<Longrightarrow> \<not> isinf y \<Longrightarrow> \<exists>q. y = Fin q"
  by (cases y) (auto simp: isnan_def isinf_def)

lemma median_finite:
  assumes some: "\<exists>x\<in>set xs. \<not> isnan x" and fin: "\<forall>x\<in>set xs. \<not> isinf x"
  shows "\<exists>q. median xs = Fin q"
proof -
  define ys where "ys = fsort (dropna xs)"
  have ne: "length ys \<noteq> 0"
    using some by (auto simp: ys_def dropna_def filter_empty_conv)
  have nth: "\<exists>q. ys ! k = Fin q" if "k < length ys" for k
  proof -
    from that have "ys ! k \<in> set ys" by simp
    then have "ys ! k \<in> set xs" "\<not> isnan (ys ! k)" by (auto simp: ys_def dropna_def)
    with fin show ?thesis using not_nan_not_inf by blast
  qed
  show ?thesis
  proof (cases "odd (length ys)")
    case True
    then have "median xs = ys ! (length ys div 2)"
      using ne by (simp add: median_def ys_def Let_def)
    moreover have "length ys div 2 < length ys" using ne by simp
    ultimately show ?thesis using nth by simp
  next
    case False
    then have m: "median xs = fdiv (fadd (ys ! (length ys div 2 - 1)) (ys ! (length ys div 2))) (Fin 2)"
      using ne by (simp add: median_def ys_def Let_def)
    have "length ys div 2 < length ys" "length ys div 2 - 1 < length ys" using ne by arith+
    then obtain a b where "ys ! (length ys div 2 - 1) = Fin a" "ys ! (length ys div 2) = Fin b"
      using nth by blast
    then have "median xs = Fin ((a + b) / 2)" using m by simp
    then show ?thesis by blast
  qed
qed

lemma get_set_col_other: "col \<noteq> col' \<Longrightarrow> get_col col (set_col col' v r) = get_col col r"
  by (cases col; cases col') simp_all

lemma map_get_col_fill_column:
  "map (get_col col) (fill_column col df) =
   map (fillna (median (map (get_col col) df))) (map (get_col col) df)"
  by (simp add: fill_column_def Let_def)

lemma map_get_col_fill_other:
  "col \<noteq> col' \<Longrightarrow> map (get_col col) (fill_column col' df) = map (get_col col) df"
  by (simp add: fill_column_def Let_def get_set_col_other)

lemma filled_column:
  "map (get_col col) (fill_missing_numeric df) =
   map (fillna (median (map (get_col col) df))) (map (get_col col) df)"
  by (cases col)
    (simp_all add: fill_missing_numeric_def map_get_col_fill_other map_get_col_fill_column)

lemma filled_cell:
  assumes "i < length df"
  shows "get_col col (fill_missing_numeric df ! i) =
         fillna (median (map (get_col col) df)) (get_col col (df ! i))"
proof -
  have "map (get_col col) (fill_missing_numeric df) ! i =
        map (fillna (median (map (get_col col) df))) (map (get_col col) df) ! i"
    by (simp only: filled_column)
  then show ?thesis using assms by simp
qed

lemma present_cells:
  "list_all2 (\<lambda>r r'. g r' = fillna v (g r)) df out \<Longrightarrow>
   map (g \<circ> snd) (filter (\<lambda>(r, r'). \<not> isnan (g r)) (zip df out)) = dropna (map g df)"
  by (induction rule: list_all2_induct) (auto simp: dropna_def fillna_def)

lemma filled_rows_related:
  "list_all2 (\<lambda>r r'. get_col col r' = fillna (median (map (get_col col) df)) (get_col col r))
     df (fill_missing_numeric df)"
  by (simp add: list_all2_conv_all_nth filled_cell)



text \<open>
  C10: when a fill column of the input table is missing in every row, the fill step is
  defined all the same (no error): the median of the column is NaN, filling with it
  changes nothing, and every entry of the column is still missing after the step.
\<close>

theorem all_missing_column_stays_missing:
  assumes "\<forall>r\<in>set df. isnan (get_col col r)"
  shows "median (map (get_col col) df) = NaN \<and>
         fill_column col df = df \<and>
         map (get_col col) (fill_missing_numeric df) = map (get_col col) df \<and>
         (\<forall>r\<in>set (fill_missing_numeric df). isnan (get_col col r))"
proof -
  have m: "median (map (get_col col) df) = NaN"
    using assms by (simp add: median_all_nan)
  have f: "fill_column col df = df"
    using assms by (simp add: fill_column_def m fillna_def isnan_def map_idI)
  have c: "map (get_col col) (fill_missing_numeric df) = map (get_col col) df"
    using assms by (simp add: filled_column m fillna_def isnan_def)
  have "\<forall>r\<in>set (fill_missing_numeric df). isnan (get_col col r)"
  proof
    fix r assume "r \<in> set (fill_missing_numeric df)"
    then have "get_col col r \<in> set (map (get_col col) (fill_missing_numeric df))" by simp
    then have "get_col col r \<in> get_col col ` set df" by (simp only: c set_map)
    then show "isnan (get_col col r)" using assms by auto
  qed
  with m f c show ?thesis by blast
qed

theorem all_missing_column_stays_missing_witness:
  "list_all (\<lambda>r. isnan (get_col Units_Sold r)) unsold_frame \<and>
   median (map (get_col Units_Sold) unsold_frame) = NaN \<and>
   fill_column Units_Sold unsold_frame = unsold_frame \<and>
   map (get_col Units_Sold) (fill_missing_numeric unsold_frame) = [NaN, NaN] \<and>
   map customer_rating (fill_missing_numeric unsold_frame) = [Fin 4, Fin 4]"
proof -
  have a: "list_all (\<lambda>r. isnan (get_col Units_Sold r)) unsold_frame"
    by (simp add: unsold_frame_def product_def isnan_def)
  then have h: "\<forall>r\<in>set unsold_frame. isnan (get_col Units_Sold r)"
    by (simp add: list_all_iff)
  note t = all_missing_column_stays_missing [OF h]
  from t have m: "median (map (get_col Units_Sold) unsold_frame) = NaN" by blast
  from t have f: "fill_column Units_Sold unsold_frame = unsold_frame" by blast
  from t have "map (get_col Units_Sold) (fill_missing_numeric unsold_frame) =
               map (get_col Units_Sold) unsold_frame" by blast
  moreover have "map (get_col Units_Sold) unsold_frame = [NaN, NaN]"
    by (simp add: unsold_frame_def product_def)
  ultimately have u: "map (get_col Units_Sold) (fill_missing_numeric unsold_frame) = [NaN, NaN]"
    by (simp only:)
  have r: "map customer_rating (fill_missing_numeric unsold_frame) = [Fin 4, Fin 4]"
    by (simp add: unsold_frame_def eval_defs)
  from a m f u r show ?thesis by blast
qed

section \<open>The raw frame and the rows of the enriched frame\<close>

lemma update_copy:
  "h ! a = Frame rows \<Longrightarrow> update_frame f (length h) (h @ [Frame rows]) = Some (h @ [Frame (f rows)])"
  by (simp add: update_frame_def)

lemma assign_copy:
  "assign_metrics (length h) (h @ [Frame rows]) = Some (h @ [Metric_Frame (derive_metrics rows)])"
  by (simp add: assign_metrics_def)

lemma step2_result:
  assumes "df_raw < length h" and "h ! df_raw = Frame raw"
  shows "step2 df_raw h = Some (length h, h @ [Metric_Frame (enrich raw)])"
  using assms
  by (simp add: step2_def copy_frame_def update_frame_def assign_metrics_def enrich_def clean_def)

lemma enrich_frame:
  assumes "i < length raw"
  shows "product_id (enrich raw ! i) = astype_string (product_id (raw ! i))"
    and "product_name (enrich raw ! i) = product_name (raw ! i)"
    and "category (enrich raw ! i) = fill_category_cell (category (raw ! i))"
    and "subcategory (enrich raw ! i) = subcategory (raw ! i)"
    and "unit_price (enrich raw ! i) = unit_price (raw ! i)"
    and "cost_per_unit (enrich raw ! i) = cost_per_unit (raw ! i)"
    and "inventory (enrich raw ! i) = inventory (raw ! i)"
  using assms by (simp_all add: enrich_nth clean_nth fill_missing_numeric_frame)

lemma get_col_fun:
  "get_col Units_Sold = units_sold"
  "get_col Customer_Rating = customer_rating"
  by (rule ext, simp)+

lemma enrich_filled:
  assumes "i < length raw"
  shows "get_col col (row.truncate (enrich raw ! i)) =
         fillna (median (map (get_col col) raw)) (get_col col (raw ! i))"
  using assms filled_cell [OF assms, of col]
  by (cases col) (simp_all add: enrich_nth clean_numeric row.truncate_def)

text \<open>
  C8: let \<open>df_raw\<close> refer to the loaded frame \<open>raw\<close>.  Step 2 binds \<open>df\<close> to a new object,
  and when it ends the object of \<open>df_raw\<close> still is \<open>raw\<close>, every other object of the heap
  is as it was, and the object of \<open>df\<close> is the enriched frame.  The enriched frame has as
  many rows as \<open>raw\<close>, in the same order: row \<open>i\<close> has the Product ID of row \<open>i\<close> of \<open>raw\<close>
  as text, the same name, subcategory, price, cost and inventory, and the category, units
  and rating of that row with the missing entries filled.  The later steps only read
  \<open>df\<close>: sorting, grouping and rounding return new frames.
\<close>

theorem step2_keeps_raw_frame_and_rows:
  assumes "df_raw < length h" and "h ! df_raw = Frame raw"
  shows "step2 df_raw h = Some (length h, h @ [Metric_Frame (enrich raw)]) \<and>
         length h \<noteq> df_raw \<and>
         (h @ [Metric_Frame (enrich raw)]) ! df_raw = Frame raw \<and>
         (\<forall>a<length h. (h @ [Metric_Frame (enrich raw)]) ! a = h ! a) \<and>
         length (enrich raw) = length raw \<and>
         (\<forall>i<length raw.
            product_id (enrich raw ! i) = astype_string (product_id (raw ! i)) \<and>
            product_name (enrich raw ! i) = product_name (raw ! i) \<and>
            subcategory (enrich raw ! i) = subcategory (raw ! i) \<and>
            unit_price (enrich raw ! i) = unit_price (raw ! i) \<and>
            cost_per_unit (enrich raw ! i) = cost_per_unit (raw ! i) \<and>
            inventory (enrich raw ! i) = inventory (raw ! i) \<and>
            category (enrich raw ! i) = fill_category_cell (category (raw ! i)) \<and>
            units_sold (enrich raw ! i) =
              fillna (median (map units_sold raw)) (units_sold (raw ! i)) \<and>
            customer_rating (enrich raw ! i) =
              fillna (median (map customer_rating raw)) (customer_rating (raw ! i)))"
proof -
  have u: "units_sold (enrich raw ! i) = fillna (median (map units_sold raw)) (units_sold (raw ! i))"
    if "i < length raw" for i
    using enrich_filled [OF that, of Units_Sold] by (simp add: row.truncate_def get_col_fun)
  have c: "customer_rating (enrich raw ! i) =
             fillna (median (map customer_rating raw)) (customer_rating (raw ! i))"
    if "i < length raw" for i
    using enrich_filled [OF that, of Customer_Rating] by (simp add: row.truncate_def get_col_fun)
  show ?thesis
    using assms by (simp add: step2_result nth_append enrich_frame u c)
qed

theorem step2_keeps_raw_frame_and_rows_witness:
  "(0::nat) < length [Frame sample_frame] \<and>
   [Frame sample_frame] ! 0 = Frame sample_frame \<and>
   step2 0 [Frame sample_frame] =
     Some (1, [Frame sample_frame, Metric_Frame (enrich sample_frame)]) \<and>
   length (enrich sample_frame) = 4 \<and>
   product_id (enrich sample_frame ! 3) = Id_Text ''D'' \<and>
   units_sold (sample_frame ! 2) = NaN \<and>
   units_sold (enrich sample_frame ! 2) = Fin 3"
proof -
  have h1: "(0::nat) < length [Frame sample_frame]" by simp
  have h2: "[Frame sample_frame] ! 0 = Frame sample_frame" by simp
  note t = step2_keeps_raw_frame_and_rows [OF h1 h2]
  from t have s: "step2 0 [Frame sample_frame] =
     Some (1, [Frame sample_frame, Metric_Frame (enrich sample_frame)])"
    by simp
  from t have "length (enrich sample_frame) = length sample_frame" by blast
  then have l: "length (enrich sample_frame) = 4" by (simp add: sample_frame_def)
  from t have "\<forall>i<length sample_frame.
     product_id (enrich sample_frame ! i) = astype_string (product_id (sample_frame ! i))"
    by blast
  then have "product_id (enrich sample_frame ! 3) = astype_string (product_id (sample_frame ! 3))"
    by (simp add: sample_frame_def)
  then have p: "product_id (enrich sample_frame ! 3) = Id_Text ''D''"
    by (simp add: sample_frame_def product_def)
  have u: "units_sold (sample_frame ! 2) = NaN"
    by (simp add: sample_frame_def product_def)
  from t have "\<forall>i<length sample_frame.
     units_sold (enrich sample_frame ! i) =
       fillna (median (map units_sold sample_frame)) (units_sold (sample_frame ! i))"
    by blast
  then have "units_sold (enrich sample_frame ! 2) =
       fillna (median (map units_sold sample_frame)) (units_sold (sample_frame ! 2))"
    by (simp add: sample_frame_def)
  then have f: "units_sold (enrich sample_frame ! 2) = Fin 3"
    by (simp add: sample_frame_def product_def median_def dropna_def isnan_def fillna_def)
  from h1 h2 s l p u f show ?thesis by blast
qed

text \<open>
  Without the copy the fill would change the object \<open>df_raw\<close> refers to: the same in-place
  fill at the address of the loaded frame replaces its missing Units Sold.
\<close>

lemma fill_in_place_changes_object:
  "\<exists>h'. update_frame fill_missing_numeric 0 [Frame sample_frame] = Some h' \<and>
        h' ! 0 \<noteq> Frame sample_frame"
proof -
  have "fill_missing_numeric sample_frame \<noteq> sample_frame"
  proof
    assume "fill_missing_numeric sample_frame = sample_frame"
    then have "units_sold (fill_missing_numeric sample_frame ! 2) = units_sold (sample_frame ! 2)"
      by simp
    then show False
      by (simp add: sample_frame_def eval_defs)
  qed
  then show ?thesis by (simp add: update_frame_def)
qed

section \<open>The Product ID as text\<close>

lemma digit_val_digit_char: "d < 10 \<Longrightarrow> digit_val (digit_char d) = Some d"
proof -
  assume "d < 10"
  then have "d \<in> {0, 1, 2, 3, 4, 5, 6, 7, 8, 9}" by auto
  then show ?thesis
    by (auto simp: digit_val_def digit_char_def)
qed

lemma digit_char_in_digits: "d < 10 \<Longrightarrow> digit_char d \<in> set ''0123456789''"
  unfolding digit_char_def by (rule nth_mem) simp

lemma parse_digits_append:
  "parse_digits acc (xs @ ys) =
     (case parse_digits acc xs of None \<Rightarrow> None | Some a \<Rightarrow> parse_digits a ys)"
  by (induction xs arbitrary: acc) (auto split: option.splits)

lemma parse_digits_str_nat: "parse_digits 0 (str_nat n) = Some n"
proof (induction n rule: str_nat.induct)
  case (1 n)
  show ?case
  proof (cases "n < 10")
    case True
    then show ?thesis
      by (subst str_nat.simps) (simp add: digit_val_digit_char)
  next
    case False
    with 1 have ih: "parse_digits 0 (str_nat (n div 10)) = Some (n div 10)" by simp
    have "n mod 10 < 10" by simp
    then have "parse_digits 0 (str_nat (n div 10) @ [digit_char (n mod 10)]) = Some n"
      by (simp add: parse_digits_append ih digit_val_digit_char)
    with False show ?thesis
      by (subst str_nat.simps) simp
  qed
qed

lemma set_str_nat: "set (str_nat n) \<subseteq> set ''0123456789''"
proof (induction n rule: str_nat.induct)
  case (1 n)
  show ?case
  proof (cases "n < 10")
    case True
    then show ?thesis
      using digit_char_in_digits [of n] by (subst str_nat.simps) simp
  next
    case False
    with 1 have "set (str_nat (n div 10)) \<subseteq> set ''0123456789''" by simp
    moreover have "digit_char (n mod 10) \<in> set ''0123456789''"
      by (rule digit_char_in_digits) simp
    ultimately show ?thesis
      using False by (subst str_nat.simps) simp
  qed
qed

lemma str_nat_not_Nil: "str_nat n \<noteq> []"
  by (subst str_nat.simps) simp

lemma digit_not_space: "c \<in> set ''0123456789'' \<Longrightarrow> \<not> is_space c \<and> c \<noteq> CHR ''-'' \<and> c \<noteq> CHR ''+''"
  by (auto simp: is_space_def)

lemma strip_no_space:
  assumes "s \<noteq> []" and "\<not> is_space (hd s)" and "\<not> is_space (last s)"
  shows "rev (dropWhile is_space (rev (dropWhile is_space s))) = s"
proof -
  from assms have a: "dropWhile is_space s = s"
    by (cases s) simp_all
  from assms have "rev s \<noteq> []" "\<not> is_space (hd (rev s))"
    by (simp_all add: hd_rev)
  then have "dropWhile is_space (rev s) = rev s"
    by (cases "rev s") simp_all
  with a show ?thesis by simp
qed

lemma strip_str_nat: "rev (dropWhile is_space (rev (dropWhile is_space (str_nat n)))) = str_nat n"
proof (rule strip_no_space)
  show "str_nat n \<noteq> []" by (rule str_nat_not_Nil)
  have "hd (str_nat n) \<in> set (str_nat n)" "last (str_nat n) \<in> set (str_nat n)"
    using str_nat_not_Nil by simp_all
  then have "hd (str_nat n) \<in> set ''0123456789''" "last (str_nat n) \<in> set ''0123456789''"
    using set_str_nat by blast+
  then show "\<not> is_space (hd (str_nat n))" "\<not> is_space (last (str_nat n))"
    using digit_not_space by blast+
qed

lemma parse_int_str_nat: "parse_int (str_nat n) = Some (int n)"
proof -
  obtain c cs where s: "str_nat n = c # cs"
    using str_nat_not_Nil by (cases "str_nat n") auto
  then have "c \<in> set ''0123456789''" using set_str_nat [of n] by auto
  then have c: "c \<noteq> CHR ''-''" "c \<noteq> CHR ''+''" using digit_not_space by blast+
  have "parse_unsigned (str_nat n) = Some n"
    by (simp add: parse_unsigned_def str_nat_not_Nil parse_digits_str_nat)
  then show ?thesis
    unfolding parse_int_def strip_str_nat Let_def using s c by simp
qed

lemma parse_int_minus_str_nat: "parse_int (CHR ''-'' # str_nat n) = Some (- int n)"
proof -
  have "last (CHR ''-'' # str_nat n) = last (str_nat n)"
    using str_nat_not_Nil by simp
  moreover have "last (str_nat n) \<in> set ''0123456789''"
    using set_str_nat [of n] str_nat_not_Nil [of n] last_in_set by blast
  ultimately have "\<not> is_space (last (CHR ''-'' # str_nat n))"
    using digit_not_space by simp
  moreover have "\<not> is_space (hd (CHR ''-'' # str_nat n))"
    by (simp add: is_space_def)
  ultimately have "rev (dropWhile is_space (rev (dropWhile is_space (CHR ''-'' # str_nat n)))) =
        CHR ''-'' # str_nat n"
    by (intro strip_no_space) simp_all
  moreover have "parse_unsigned (str_nat n) = Some n"
    by (simp add: parse_unsigned_def str_nat_not_Nil parse_digits_str_nat)
  ultimately show ?thesis
    unfolding parse_int_def Let_def by simp
qed

lemma parse_int_str_int: "parse_int (str_int i) = Some i"
  by (simp add: str_int_def parse_int_str_nat parse_int_minus_str_nat)

lemma int64_cell_parse: "int64_cell s = Some i \<Longrightarrow> parse_int s = Some i"
  by (auto simp: int64_cell_def split: option.splits if_splits)

lemma coerce_identifier_nth:
  "i < length df \<Longrightarrow> product_id (coerce_identifier df ! i) = astype_string (product_id (df ! i))"
  by (simp add: coerce_identifier_def)

lemma infer_id_column_cases:
  assumes "infer_id_column cells = Some col"
  shows "length col = length cells \<and>
         ((\<forall>i<length cells. \<exists>n. int64_cell (cells ! i) = Some n \<and> col ! i = Id_Int n) \<or>
          (\<forall>i<length cells. col ! i = text_cell (cells ! i)))"
proof (cases "list_all (\<lambda>s. int64_cell s \<noteq> None) cells")
  case True
  with assms have col: "col = map (\<lambda>s. Id_Int (the (int64_cell s))) cells"
    by (simp add: infer_id_column_def)
  have "\<exists>n. int64_cell (cells ! i) = Some n \<and> col ! i = Id_Int n" if "i < length cells" for i
  proof -
    from True that have "int64_cell (cells ! i) \<noteq> None"
      by (simp add: list_all_length)
    then show ?thesis using that by (auto simp: col)
  qed
  then show ?thesis by (simp add: col)
next
  case False
  with assms have "col = map text_cell cells"
    by (simp add: infer_id_column_def split: if_splits)
  then show ?thesis by simp
qed

lemma numbered_loaded: "infer_id_column numbered_cells = Some (map product_id numbered_frame)"
  by (simp add: numbered_cells_def numbered_frame_def product_def infer_id_column_def int64_cell_def
      parse_int_def parse_unsigned_def digit_val_def is_space_def Let_def)

lemma lettered_loaded: "infer_id_column lettered_cells = Some (map product_id sample_frame)"
  by (simp add: lettered_cells_def sample_frame_def product_def infer_id_column_def int64_cell_def
      parse_int_def parse_unsigned_def digit_val_def is_space_def Let_def certainly_text_def
      text_cell_def is_na_text_def na_values_def bool_words_def is_letter_def)




section \<open>The ten products with the largest revenue\<close>

lemma fle_total: "\<not> isnan a \<Longrightarrow> \<not> isnan b \<Longrightarrow> fle a b \<or> fle b a"
  by (cases a; cases b) (auto simp: isnan_def)

lemma fle_trans: "fle a b \<Longrightarrow> fle b c \<Longrightarrow> fle a c"
  by (cases a; cases b; cases c) auto

lemma fle_not_nan: "fle a b \<Longrightarrow> \<not> isnan a \<and> \<not> isnan b"
  by (cases a; cases b) (auto simp: isnan_def)

lemma key_before_total: "key_before asc a b \<or> key_before asc b a"
  using fle_total [of a b] fle_total [of b a] by (auto simp: key_before_def)

lemma key_before_trans: "key_before asc a b \<Longrightarrow> key_before asc b c \<Longrightarrow> key_before asc a c"
  unfolding key_before_def
  by (cases asc) (auto dest: fle_trans fle_not_nan)

lemma insert_sorted_exists:
  assumes "sorted_wrt (\<lambda>x y. key_before asc (k x) (k y)) s"
  shows "\<exists>s'. mset s' = add_mset x (mset s) \<and> sorted_wrt (\<lambda>x y. key_before asc (k x) (k y)) s'"
  using assms
proof (induction s)
  case Nil
  have "mset [x] = add_mset x (mset []) \<and> sorted_wrt (\<lambda>x y. key_before asc (k x) (k y)) [x]"
    by simp
  then show ?case by blast
next
  case (Cons y ys)
  let ?P = "\<lambda>x y. key_before asc (k x) (k y)"
  show ?case
  proof (cases "key_before asc (k x) (k y)")
    case True
    have "\<forall>z\<in>set ys. ?P x z"
      using Cons.prems True key_before_trans by (auto dest: key_before_trans)
    with True Cons.prems have "sorted_wrt ?P (x # y # ys)" by simp
    moreover have "mset (x # y # ys) = add_mset x (mset (y # ys))" by simp
    ultimately show ?thesis by blast
  next
    case False
    then have yx: "?P y x" using key_before_total [of asc "k x" "k y"] by blast
    from Cons.prems have "sorted_wrt ?P ys" by simp
    from Cons.IH [OF this] obtain s' where s': "mset s' = add_mset x (mset ys)" "sorted_wrt ?P s'"
      by blast
    from s'(1) have "set s' = insert x (set ys)"
      by (metis set_mset_add_mset_insert set_mset_mset)
    with Cons.prems yx have "\<forall>z\<in>set s'. ?P y z" by auto
    with s'(2) have "sorted_wrt ?P (y # s')" by simp
    moreover have "mset (y # s') = add_mset x (mset (y # ys))" using s'(1) by simp
    ultimately show ?thesis by blast
  qed
qed

lemma sort_values_exists: "\<exists>s. sort_values key asc df s"
proof (induction df)
  case Nil
  have "sort_values key asc [] []" by (simp add: sort_values_def)
  then show ?case by blast
next
  case (Cons x df)
  then obtain s where "mset s = mset df"
    "sorted_wrt (\<lambda>x y. key_before asc (key (snd x)) (key (snd y))) s"
    by (auto simp: sort_values_def)
  with insert_sorted_exists [of asc "key \<circ> snd" s x]
  obtain s' where "mset s' = add_mset x (mset df)"
    "sorted_wrt (\<lambda>x y. key_before asc (key (snd x)) (key (snd y))) s'"
    by (auto simp: comp_def)
  then have "sort_values key asc (x # df) s'" by (simp add: sort_values_def)
  then show ?case by blast
qed

lemma sort_values_length: "sort_values key asc df s \<Longrightarrow> length s = length df"
  unfolding sort_values_def by (metis size_mset)

lemma sort_values_set: "sort_values key asc df s \<Longrightarrow> set s = set df"
  unfolding sort_values_def by (metis set_mset_mset)

lemma sort_values_labels:
  assumes "sort_values key asc df s" and "distinct (map fst df)"
  shows "distinct (map fst s)"
proof -
  from assms(1) have "mset (map fst s) = mset (map fst df)"
    unfolding sort_values_def by (metis mset_map)
  then show ?thesis using assms(2) by (metis mset_eq_imp_distinct_iff)
qed

lemma sort_values_sorted:
  "sort_values key asc df s \<Longrightarrow>
   sorted_wrt (\<lambda>x y. key_before asc (key (snd x)) (key (snd y))) s"
  by (simp add: sort_values_def)

lemma sorted_wrt_take_drop:
  assumes "sorted_wrt P s"
  shows "\<forall>x\<in>set (take n s). \<forall>y\<in>set (drop n s). P x y"
proof -
  from assms have "sorted_wrt P (take n s @ drop n s)" by simp
  then show ?thesis unfolding sorted_wrt_append by blast
qed

lemma in_enumerate: "(i, r) \<in> set (enumerate 0 df) \<longleftrightarrow> i < length df \<and> r = df ! i"
  by (auto simp: in_set_enumerate_eq)

lemma ladder_revenues:
  "map (total_revenue \<circ> snd) ladder_sorted =
   [Fin 12, Fin 11, Fin 10, Fin 9, Fin 8, Fin 7, Fin 6, Fin 5, Fin 4, Fin 3, Fin 2, Fin 1]"
  by (simp add: ladder_sorted_def ladder_frame_def eval_defs enumerate_eq_zip upt_rec)

lemma ladder_labels: "map fst ladder_sorted = [11, 10, 9, 8, 7, 6, 5, 4, 3, 2, 1, 0]"
  by (simp add: ladder_sorted_def ladder_frame_def enumerate_eq_zip enrich_def derive_metrics_def
      clean_def coerce_identifier_def fill_missing_categorical_def fill_missing_numeric_def
      fill_column_def Let_def upt_rec)

lemma sorted_wrt_key:
  "sorted_wrt (\<lambda>x y. key_before asc (key (snd x)) (key (snd y))) s \<longleftrightarrow>
   sorted_wrt (key_before asc) (map (key \<circ> snd) s)"
  by (simp add: sorted_wrt_map)

lemma ladder_is_top_revenue: "top_revenue (enrich ladder_frame) ladder_sorted (head 10 ladder_sorted)"
proof -
  have "mset ladder_sorted = mset (enumerate 0 (enrich ladder_frame))"
    by (simp add: ladder_sorted_def)
  moreover have "sorted_wrt (key_before False) (map (total_revenue \<circ> snd) ladder_sorted)"
    unfolding ladder_revenues by (simp add: key_before_def)
  ultimately show ?thesis
    by (simp add: top_revenue_def sort_values_def sorted_wrt_key)
qed




section \<open>The category rollup\<close>

lemma rint_bounds: "\<lfloor>q\<rfloor> \<le> rint q \<and> rint q \<le> \<lfloor>q\<rfloor> + 1"
  by (simp add: rint_def Let_def)

lemma rint_mono:
  assumes "q \<le> q'"
  shows "rint q \<le> rint q'"
proof (cases "\<lfloor>q\<rfloor> = \<lfloor>q'\<rfloor>")
  case True
  from assms have "q - of_int \<lfloor>q\<rfloor> \<le> q' - of_int \<lfloor>q\<rfloor>" by simp
  then show ?thesis
    unfolding rint_def Let_def True [symmetric] by auto
next
  case False
  with assms have "\<lfloor>q\<rfloor> < \<lfloor>q'\<rfloor>"
    using floor_mono [OF assms] by linarith
  then have "\<lfloor>q\<rfloor> + 1 \<le> \<lfloor>q'\<rfloor>" by simp
  with rint_bounds [of q] rint_bounds [of q'] show ?thesis by linarith
qed

lemma round2_nan [simp]: "isnan (round2 x) \<longleftrightarrow> isnan x"
  by (cases x) (simp_all add: isnan_def)

lemma round2_mono: "fle b a \<Longrightarrow> fle (round2 b) (round2 a)"
proof (cases a; cases b)
  fix p q assume "a = Fin p" "b = Fin q" "fle b a"
  then have "q * 100 \<le> p * 100" by simp
  then have "rint (q * 100) \<le> rint (p * 100)" by (rule rint_mono)
  then show "fle (round2 b) (round2 a)"
    using \<open>a = Fin p\<close> \<open>b = Fin q\<close> by (simp add: divide_right_mono)
qed auto

lemma key_before_round2:
  "key_before False a b \<Longrightarrow> key_before False (round2 a) (round2 b)"
  by (auto simp: key_before_def round2_mono)

lemma set_map_filter_Some: "set (List.map_filter f xs) = {y. \<exists>x\<in>set xs. f x = Some y}"
  by (induction xs) (auto split: option.splits)

lemma set_group_keys: "set (group_keys df) = {k. \<exists>r\<in>set df. category r = Some k}"
  by (simp add: group_keys_def set_map_filter_Some)

lemma distinct_group_keys: "distinct (group_keys df)"
  by (simp add: group_keys_def)

lemma map_fst_groupby_agg: "map fst (groupby_agg df) = group_keys df"
  by (simp add: groupby_agg_def comp_def)

lemma in_groupby_agg:
  "(k, r) \<in> set (groupby_agg df) \<Longrightarrow> r = agg_group (group_rows k df)"
  by (auto simp: groupby_agg_def)

lemma map_fst_round_frame: "map fst (round_frame s) = map fst s"
  by (simp add: round_frame_def case_prod_beta comp_def)

lemma in_round_frame:
  "(k, r) \<in> set (round_frame s) \<Longrightarrow> \<exists>r0. (k, r0) \<in> set s \<and> r = round_rollup r0"
  by (auto simp: round_frame_def)

lemma sorted_round_frame:
  assumes "sorted_wrt (\<lambda>x y. key_before False (Total_Revenue (snd x)) (Total_Revenue (snd y))) s"
  shows "sorted_wrt (\<lambda>x y. key_before False (Total_Revenue (snd x)) (Total_Revenue (snd y)))
           (round_frame s)"
proof -
  have "sorted_wrt (\<lambda>x y. key_before False (round2 (Total_Revenue (snd x)))
                            (round2 (Total_Revenue (snd y)))) s"
    by (rule sorted_wrt_mono_rel [OF _ assms]) (simp add: key_before_round2)
  then show ?thesis
    by (simp add: round_frame_def sorted_wrt_map case_prod_beta round_rollup_def)
qed

lemma fill_category_cell_Some:
  "fill_category_cell c = Some (case c of None \<Rightarrow> ''Unknown'' | Some s \<Rightarrow> s)"
  by (simp add: fill_category_cell_def split: option.splits)

lemma enriched_categories:
  "{k. \<exists>r\<in>set (enrich raw). category r = Some k} =
   (\<lambda>r. case category r of None \<Rightarrow> ''Unknown'' | Some c \<Rightarrow> c) ` set raw"
  (is "?L = ?f ` set raw")
proof (rule set_eqI)
  fix k
  show "k \<in> ?L \<longleftrightarrow> k \<in> ?f ` set raw"
  proof
    assume "k \<in> ?L"
    then obtain r where "r \<in> set (enrich raw)" "category r = Some k" by blast
    then obtain i where i: "i < length raw" "r = enrich raw ! i"
      by (metis in_set_conv_nth length_enrich)
    with \<open>category r = Some k\<close> have "Some k = fill_category_cell (category (raw ! i))"
      by (simp add: enrich_frame)
    then have "k = ?f (raw ! i)"
      by (simp add: fill_category_cell_Some)
    moreover have "raw ! i \<in> set raw" using i(1) by simp
    ultimately show "k \<in> ?f ` set raw" by blast
  next
    assume "k \<in> ?f ` set raw"
    then obtain r0 where "r0 \<in> set raw" "k = ?f r0" by blast
    then obtain i where i: "i < length raw" "r0 = raw ! i"
      by (metis in_set_conv_nth)
    have "category (enrich raw ! i) = Some k"
      using i \<open>k = ?f r0\<close> by (simp add: enrich_frame fill_category_cell_Some)
    moreover have "enrich raw ! i \<in> set (enrich raw)" using i(1) by simp
    ultimately show "k \<in> ?L" by blast
  qed
qed

lemma sample_groups:
  "groupby_agg (enrich sample_frame) =
     [(''Apparel'', \<lparr>Total_Revenue = Fin 21, Total_Profit = Fin 15, Avg_Rating = Fin 4\<rparr>),
      (''Toys'', \<lparr>Total_Revenue = Fin 53, Total_Profit = Fin 27, Avg_Rating = Fin (9 / 2)\<rparr>),
      (''Unknown'', \<lparr>Total_Revenue = Fin 0, Total_Profit = Fin 0, Avg_Rating = Fin 4\<rparr>)]"
proof -
  have "group_keys (enrich sample_frame) = [''Apparel'', ''Toys'', ''Unknown'']"
    by (simp add: group_keys_def sample_frame_def eval_defs List.map_filter_def)
  then show ?thesis
    unfolding groupby_agg_def
    by (simp add: sample_frame_def eval_defs group_rows_def agg_group_def agg_sum_def agg_mean_def)
qed

lemma sample_rollup_is_performance:
  "category_performance (enrich sample_frame) sample_rollup (round_frame sample_rollup)"
proof -
  have "mset sample_rollup = mset (groupby_agg (enrich sample_frame))"
    unfolding sample_groups by (simp add: sample_rollup_def)
  moreover have "sorted_wrt (\<lambda>x y. key_before False (Total_Revenue (snd x)) (Total_Revenue (snd y)))
                   sample_rollup"
    by (simp add: sample_rollup_def key_before_def)
  ultimately show ?thesis
    by (simp add: category_performance_def sort_values_def)
qed

lemma rated_groups:
  "groupby_agg (enrich rated_frame) =
     [(''Toys'', \<lparr>Total_Revenue = Fin 15, Total_Profit = Fin 9, Avg_Rating = Fin (13 / 3)\<rparr>)]"
proof -
  have "group_keys (enrich rated_frame) = [''Toys'']"
    by (simp add: group_keys_def rated_frame_def eval_defs List.map_filter_def)
  then show ?thesis
    unfolding groupby_agg_def
    by (simp add: rated_frame_def eval_defs group_rows_def agg_group_def agg_sum_def agg_mean_def)
qed

lemma round2_samples:
  "round2 (Fin (13 / 3)) = Fin (433 / 100)"
  "round2 (Fin 15) = Fin 15"
  "round2 (Fin 9) = Fin 9"
  "round2 (Fin 53) = Fin 53"
  "round2 (Fin 27) = Fin 27"
  "round2 (Fin (9 / 2)) = Fin (9 / 2)"
  by code_simp+




section \<open>The ten products with the smallest profit\<close>

lemma ladder_profits:
  "map (total_profit \<circ> snd) (enumerate 0 (enrich ladder_frame)) =
   [Fin 1, Fin 2, Fin 3, Fin 4, Fin 5, Fin 6, Fin 7, Fin 8, Fin 9, Fin 10, Fin 11, Fin 12]"
  by (simp add: ladder_frame_def eval_defs enumerate_eq_zip upt_rec)

lemma ladder_is_bottom_profit:
  "bottom_profit (enrich ladder_frame) (enumerate 0 (enrich ladder_frame))
     (head 10 (enumerate 0 (enrich ladder_frame)))"
proof -
  have "sorted_wrt (key_before True) (map (total_profit \<circ> snd) (enumerate 0 (enrich ladder_frame)))"
    unfolding ladder_profits by (simp add: key_before_def)
  then show ?thesis
    by (simp add: bottom_profit_def sort_values_def sorted_wrt_key)
qed

text \<open>
  The frame \<open>bottom_profit\<close> of line 70 has exactly \<open>min(10, row count)\<close> rows, in
  non-decreasing order of Total Profit with the rows whose Total Profit is NaN last, and
  no row left out has a smaller Total Profit than a row returned.
\<close>

theorem bottom_profit_sorted_smallest:
  assumes "bottom_profit df s out"
  shows "length out = min 10 (length df) \<and>
         (\<forall>i j. i < j \<and> j < length out \<longrightarrow>
            isnan (total_profit (snd (out ! j))) \<or>
            fle (total_profit (snd (out ! i))) (total_profit (snd (out ! j)))) \<and>
         (\<forall>x\<in>set out. \<forall>y\<in>set (drop 10 s).
            isnan (total_profit (snd y)) \<or>
            fle (total_profit (snd x)) (total_profit (snd y))) \<and>
         mset out + mset (drop 10 s) = mset (enumerate 0 df)"
proof -
  let ?P = "\<lambda>x y. key_before True (total_profit (snd x)) (total_profit (snd y))"
  from assms have sv: "sort_values total_profit True (enumerate 0 df) s" and out: "out = take 10 s"
    by (simp_all add: bottom_profit_def head_def)
  have len: "length out = min 10 (length df)"
    using sort_values_length [OF sv] by (simp add: out)
  have srt: "sorted_wrt ?P s" by (rule sort_values_sorted [OF sv])
  then have "sorted_wrt ?P out" by (simp add: out)
  then have ord: "\<forall>i j. i < j \<and> j < length out \<longrightarrow>
            isnan (total_profit (snd (out ! j))) \<or>
            fle (total_profit (snd (out ! i))) (total_profit (snd (out ! j)))"
    by (simp add: sorted_wrt_iff_nth_less key_before_def)
  have small: "\<forall>x\<in>set out. \<forall>y\<in>set (drop 10 s).
            isnan (total_profit (snd y)) \<or>
            fle (total_profit (snd x)) (total_profit (snd y))"
    using sorted_wrt_take_drop [OF srt, of 10] by (simp add: out key_before_def)
  have "mset (take 10 s @ drop 10 s) = mset (enumerate 0 df)"
    using sv by (simp add: sort_values_def)
  then have all: "mset out + mset (drop 10 s) = mset (enumerate 0 df)"
    by (simp only: mset_append out)
  from len ord small all show ?thesis by blast
qed

theorem bottom_profit_sorted_smallest_witness:
  "bottom_profit (enrich ladder_frame) (enumerate 0 (enrich ladder_frame))
     (head 10 (enumerate 0 (enrich ladder_frame))) \<and>
   length (head 10 (enumerate 0 (enrich ladder_frame))) = 10 \<and>
   map (total_profit \<circ> snd) (head 10 (enumerate 0 (enrich ladder_frame))) =
     [Fin 1, Fin 2, Fin 3, Fin 4, Fin 5, Fin 6, Fin 7, Fin 8, Fin 9, Fin 10]"
proof -
  note t = bottom_profit_sorted_smallest [OF ladder_is_bottom_profit]
  have n: "length (enrich ladder_frame) = 12"
    by (simp add: ladder_frame_def)
  from t have "length (head 10 (enumerate 0 (enrich ladder_frame))) =
               min 10 (length (enrich ladder_frame))"
    by blast
  then have l: "length (head 10 (enumerate 0 (enrich ladder_frame))) = 10"
    using n by simp
  have b: "map (total_profit \<circ> snd) (head 10 (enumerate 0 (enrich ladder_frame))) =
     [Fin 1, Fin 2, Fin 3, Fin 4, Fin 5, Fin 6, Fin 7, Fin 8, Fin 9, Fin 10]"
    unfolding head_def take_map [symmetric] ladder_profits by simp
  from ladder_is_bottom_profit l b show ?thesis by blast
qed

end
